theory Spec2Isabelle
  imports Main
begin

section \<open>The database access helper \<^verbatim>\<open>src/lib/db.ts\<close>\<close>

subsection \<open>The tagged-template helper \<^verbatim>\<open>sql\<close>\<close>

text \<open>
  \<^verbatim>\<open>`$${params.length}`\<close> renders the array length, a non-negative integer, in
  decimal without leading zeros.
\<close>

definition digit_char :: "nat \<Rightarrow> char" where
  "digit_char d = ''0123456789'' ! d"

function dec :: "nat \<Rightarrow> string" where
  "dec n = (if n < 10 then [digit_char n] else dec (n div 10) @ [digit_char (n mod 10)])"
  by pat_completeness auto
termination
  by (relation "measure (\<lambda>n. n)") auto

declare dec.simps [simp del]

text \<open>
  The result object \<^verbatim>\<open>{ text, values: params }\<close>. The values are of type \<^verbatim>\<open>any\<close>;
  the helper never inspects them, so the model is polymorphic in their type.
\<close>

record 'v QueryConfig =
  qtext :: string
  qvalues :: "'v list"

text \<open>
  The \<^verbatim>\<open>for\<close> loop of \<^verbatim>\<open>sql\<close>, with its counter \<^verbatim>\<open>i\<close> and its two accumulators
  \<^verbatim>\<open>text\<close> and \<^verbatim>\<open>params\<close> (\<open>txt\<close> and \<open>vals\<close> stand for \<^verbatim>\<open>text\<close> and \<^verbatim>\<open>values\<close>,
  which are keywords here). Both reads \<^verbatim>\<open>strings[i]\<close> and \<^verbatim>\<open>values[i]\<close> are guarded by
  the source's own bounds tests, and \<^verbatim>\<open>params.push\<close> appends at the end.
\<close>

function sql_loop :: "string list \<Rightarrow> 'v list \<Rightarrow> nat \<Rightarrow> string \<Rightarrow> 'v list \<Rightarrow> string \<times> 'v list" where
  "sql_loop strings vals i txt params =
     (if i < length strings then
        (let txt1 = txt @ strings ! i in
         if i < length vals then
           (let params1 = params @ [vals ! i] in
            sql_loop strings vals (i + 1) (txt1 @ ''$'' @ dec (length params1)) params1)
         else sql_loop strings vals (i + 1) txt1 params)
      else (txt, params))"
  by pat_completeness auto
termination
  by (relation "measure (\<lambda>(strings, vals, i, txt, params). length strings - i)") auto

declare sql_loop.simps [simp del]

definition sql :: "string list \<Rightarrow> 'v list \<Rightarrow> 'v QueryConfig" where
  "sql strings vals =
     (case sql_loop strings vals 0 [] [] of
        (txt, params) \<Rightarrow> \<lparr>qtext = txt, qvalues = params\<rparr>)"

text \<open>Values as a caller may pass them, for concrete runs of the helper.\<close>

datatype js_value = Num int | Str string | Null

text \<open>
  The helper's text, one piece per loop iteration: the fragment, followed by a
  placeholder when a value is left for it. Used to state what the loop computes.
\<close>

definition piece :: "string list \<Rightarrow> nat \<Rightarrow> nat \<Rightarrow> string" where
  "piece strings n j = strings ! j @ (if j < n then ''$'' @ dec (j + 1) else [])"

text \<open>Reading a decimal numeral back, to show that distinct numbers render differently.\<close>

definition digit_val :: "char \<Rightarrow> nat" where
  "digit_val c = of_char c - 48"

definition undec :: "string \<Rightarrow> nat" where
  "undec cs = foldl (\<lambda>a c. 10 * a + digit_val c) 0 cs"

subsection \<open>Module load: the connection string and the pool\<close>

text \<open>
  \<^verbatim>\<open>process.env.DATABASE_URL\<close> is a string or \<^verbatim>\<open>undefined\<close>. The guard
  \<^verbatim>\<open>if (!connectionString)\<close> is JavaScript falsiness: \<^verbatim>\<open>undefined\<close> and the empty
  string both take the \<^verbatim>\<open>throw\<close>. Otherwise \<^verbatim>\<open>new Pool({...})\<close> receives the
  string and the two constants.
\<close>

record PoolConfig =
  connectionString :: string
  max_clients :: nat
  idleTimeoutMillis :: nat

datatype load_error = MissingDatabaseUrl

definition load_module :: "string option \<Rightarrow> load_error + PoolConfig" where
  "load_module DATABASE_URL =
     (case DATABASE_URL of
        None \<Rightarrow> Inl MissingDatabaseUrl
      | Some url \<Rightarrow>
          if url = [] then Inl MissingDatabaseUrl
          else Inr \<lparr>connectionString = url, max_clients = 2, idleTimeoutMillis = 30000\<rparr>)"

subsection \<open>The query function\<close>

text \<open>
  \<^verbatim>\<open>query(textOrConfig, params?)\<close> forwards to \<^verbatim>\<open>pool.query\<close> of the \<^verbatim>\<open>pg\<close> library,
  which is a parameter here: it receives its first argument and its second one,
  \<open>None\<close> standing for an argument that is not passed.
\<close>

datatype 'v text_or_config = Text string | Config "'v QueryConfig"

definition query ::
  "('v text_or_config \<Rightarrow> 'v list option \<Rightarrow> 'r) \<Rightarrow> 'v text_or_config \<Rightarrow> 'v list option \<Rightarrow> 'r" where
  "query pool_query textOrConfig params =
     (case textOrConfig of
        Text s \<Rightarrow> pool_query (Text s) params
      | Config cfg \<Rightarrow> pool_query (Config cfg) None)"

subsection \<open>The statements of the schema bootstrap\<close>

text \<open>The template literals of \<^verbatim>\<open>init\<close>, character by character, line breaks included.\<close>

fun join_lines :: "string list \<Rightarrow> string" where
  "join_lines [] = []"
| "join_lines [l] = l"
| "join_lines (l # m # ls) = l @ CHR 0x0A # join_lines (m # ls)"

definition create_extension_sql :: string where
  "create_extension_sql = ''CREATE EXTENSION IF NOT EXISTS pgcrypto''"

definition users_sql :: string where
  "users_sql = join_lines
    ['''',
     ''      CREATE TABLE IF NOT EXISTS users ('',
     ''        id uuid PRIMARY KEY DEFAULT gen_random_uuid(),'',
     ''        name text,'',
     ''        email text UNIQUE,'',
     ''        email_verified timestamptz,'',
     ''        image text,'',
     ''        created_at timestamptz NOT NULL DEFAULT now(),'',
     ''        updated_at timestamptz NOT NULL DEFAULT now()'',
     ''      )'',
     ''    '']"

definition sessions_sql :: string where
  "sessions_sql = join_lines
    ['''',
     ''      CREATE TABLE IF NOT EXISTS sessions ('',
     ''        id uuid PRIMARY KEY DEFAULT gen_random_uuid(),'',
     ''        user_id uuid REFERENCES users(id) ON DELETE CASCADE,'',
     ''        session_token text UNIQUE,'',
     ''        access_token text UNIQUE,'',
     ''        expires timestamptz,'',
     ''        created_at timestamptz NOT NULL DEFAULT now(),'',
     ''        updated_at timestamptz NOT NULL DEFAULT now()'',
     ''      )'',
     ''    '']"

definition verification_tokens_sql :: string where
  "verification_tokens_sql = join_lines
    ['''',
     ''      CREATE TABLE IF NOT EXISTS verification_tokens ('',
     ''        id uuid PRIMARY KEY DEFAULT gen_random_uuid(),'',
     ''        identifier text NOT NULL,'',
     ''        token text NOT NULL UNIQUE,'',
     ''        expires timestamptz NOT NULL,'',
     ''        created_at timestamptz NOT NULL DEFAULT now()'',
     ''      )'',
     ''    '']"

definition chat_sessions_sql :: string where
  "chat_sessions_sql = join_lines
    ['''',
     ''      CREATE TABLE IF NOT EXISTS chat_sessions ('',
     ''        id uuid PRIMARY KEY DEFAULT gen_random_uuid(),'',
     ''        user_id uuid REFERENCES users(id) ON DELETE CASCADE,'',
     ''        title text,'',
     ''        metadata jsonb,'',
     ''        messages jsonb DEFAULT '[]'::jsonb,'',
     ''        created_at timestamptz NOT NULL DEFAULT now(),'',
     ''        updated_at timestamptz NOT NULL DEFAULT now()'',
     ''      )'',
     ''    '']"

definition idx_sessions_user_id_sql :: string where
  "idx_sessions_user_id_sql = ''CREATE INDEX IF NOT EXISTS idx_sessions_user_id ON sessions(user_id)''"

definition idx_chat_user_id_sql :: string where
  "idx_chat_user_id_sql = ''CREATE INDEX IF NOT EXISTS idx_chat_user_id ON chat_sessions(user_id)''"

definition idx_verification_identifier_sql :: string where
  "idx_verification_identifier_sql = ''CREATE INDEX IF NOT EXISTS idx_verification_identifier ON verification_tokens(identifier)''"

text \<open>The body of the \<^verbatim>\<open>try\<close> block: ten awaited \<^verbatim>\<open>client.query\<close> calls, in order.\<close>

definition try_body :: "string list" where
  "try_body =
     [''BEGIN'', create_extension_sql,
      users_sql, sessions_sql, verification_tokens_sql, chat_sessions_sql,
      idx_sessions_user_id_sql, idx_chat_user_id_sql, idx_verification_identifier_sql,
      ''COMMIT'']"

subsection \<open>The schema bootstrap \<^verbatim>\<open>init\<close>\<close>

text \<open>
  What a run of \<^verbatim>\<open>init\<close> does to the outside, in order: the \<^verbatim>\<open>pool.connect()\<close>
  call, each \<^verbatim>\<open>client.query\<close> call with its text, the console lines and
  \<^verbatim>\<open>client.release()\<close>.
\<close>

datatype 'e event =
    Connect
  | Query string
  | ConsoleInfo string
  | ConsoleError string 'e
  | Release

text \<open>
  The result of a run: \<open>outcome\<close> is \<open>None\<close> when the promise resolves and
  \<open>Some e\<close> when it rejects with \<open>e\<close>; \<open>conn\<close> is the client as the run leaves it,
  when one was acquired.
\<close>

record ('e, 'c) init_run =
  outcome :: "'e option"
  events :: "'e event list"
  conn :: "'c option"

text \<open>
  Awaiting a list of queries on one client: each call takes the client's state and
  returns the rejection, if any, with the new state. The first rejection leaves the
  sequence, as the exception leaves the \<^verbatim>\<open>try\<close> block. The third component is the
  list of texts sent, the rejected one included.
\<close>

fun run_queries ::
  "(string \<Rightarrow> 'c \<Rightarrow> 'e option \<times> 'c) \<Rightarrow> string list \<Rightarrow> 'c \<Rightarrow> 'e option \<times> 'c \<times> string list" where
  "run_queries exec [] c = (None, c, [])"
| "run_queries exec (s # ss) c =
     (case exec s c of
        (Some e, c') \<Rightarrow> (Some e, c', [s])
      | (None, c') \<Rightarrow>
          (case run_queries exec ss c' of (r, c'', sent) \<Rightarrow> (r, c'', s # sent)))"

definition init_info :: string where
  "init_info = ''Database initialized (users, sessions, verification_tokens, chat_sessions)''"

definition init_error :: string where
  "init_error = ''Failed to initialize database schema''"

text \<open>
  \<^verbatim>\<open>init\<close>: \<open>connected\<close> is what \<^verbatim>\<open>await pool.connect()\<close> gave, a rejection or a
  client. A rejected \<^verbatim>\<open>ROLLBACK\<close> leaves the \<^verbatim>\<open>catch\<close> block before
  \<^verbatim>\<open>console.error\<close> and \<^verbatim>\<open>throw err\<close>; the \<^verbatim>\<open>finally\<close> block runs on every path
  that entered the \<^verbatim>\<open>try\<close>.
\<close>

definition init ::
  "(string \<Rightarrow> 'c \<Rightarrow> 'e option \<times> 'c) \<Rightarrow> 'e + 'c \<Rightarrow> ('e, 'c) init_run" where
  "init exec connected =
     (case connected of
        Inl e \<Rightarrow> \<lparr>outcome = Some e, events = [Connect], conn = None\<rparr>
      | Inr client \<Rightarrow>
          (case run_queries exec try_body client of
             (None, c1, sent) \<Rightarrow>
               \<lparr>outcome = None,
                events = Connect # map Query sent @ [ConsoleInfo init_info, Release],
                conn = Some c1\<rparr>
           | (Some err, c1, sent) \<Rightarrow>
               (case exec ''ROLLBACK'' c1 of
                  (None, c2) \<Rightarrow>
                    \<lparr>outcome = Some err,
                     events = Connect # map Query sent
                                @ [Query ''ROLLBACK'', ConsoleError init_error err, Release],
                     conn = Some c2\<rparr>
                | (Some err2, c2) \<Rightarrow>
                    \<lparr>outcome = Some err2,
                     events = Connect # map Query sent @ [Query ''ROLLBACK'', Release],
                     conn = Some c2\<rparr>)))"

text \<open>The texts passed to \<^verbatim>\<open>client.query\<close> during a run, in order.\<close>

fun queries :: "'e event list \<Rightarrow> string list" where
  "queries [] = []"
| "queries (Query s # evs) = s # queries evs"
| "queries (ev # evs) = queries evs"

subsection \<open>The database server, as far as the bootstrap meets it\<close>

text \<open>
  PostgreSQL is outside the repository; \<^verbatim>\<open>init\<close> only sends it text. The claims about
  what persists need the server's side, so here is the part of it that the ten
  statements use: a catalog of extensions, tables and indexes; data definition
  statements that take part in transactions; \<^verbatim>\<open>IF NOT EXISTS\<close>, which turns the
  duplicate-object error into a no-op; dropping a table, so that keeping one is not
  true by construction. The properties of \<^verbatim>\<open>init\<close> that do not mention the catalog
  are proved for every client, not for this one.
\<close>

record catalog =
  extensions :: "string list"
  tables :: "(string \<times> string) list"
  indexes :: "(string \<times> string \<times> string) list"

definition empty_catalog :: catalog where
  "empty_catalog = \<lparr>extensions = [], tables = [], indexes = []\<rparr>"

text \<open>A table is recorded with the statement that created it, an index with its table and column.\<close>

definition table_names :: "catalog \<Rightarrow> string list" where
  "table_names cat = map fst (tables cat)"

definition index_names :: "catalog \<Rightarrow> string list" where
  "index_names cat = map fst (indexes cat)"

datatype stmt =
    Begin
  | Commit
  | Rollback
  | CreateExtension bool string
  | CreateTable bool string
  | CreateIndex bool string string string
  | DropTable bool string
  | Unsupported

text \<open>Statements are read word by word; the words are separated by blanks and line breaks.\<close>

definition is_space :: "char \<Rightarrow> bool" where
  "is_space c = (c = CHR '' '' \<or> c = CHR 0x0A \<or> c = CHR 0x09 \<or> c = CHR 0x0D)"

definition non_space :: "char \<Rightarrow> bool" where
  "non_space c = (if is_space c then False else True)"

function tokens :: "string \<Rightarrow> string list" where
  "tokens [] = []"
| "tokens (c # cs) =
     (if is_space c then tokens cs
      else (c # takeWhile non_space cs) # tokens (dropWhile non_space cs))"
  by pat_completeness auto
termination
  by (relation "measure length") (auto simp: length_dropWhile_le less_Suc_eq_le)

definition before_paren :: "string \<Rightarrow> string" where
  "before_paren w = takeWhile (\<lambda>x. x \<noteq> CHR ''('') w"

definition in_parens :: "string \<Rightarrow> string" where
  "in_parens w = takeWhile (\<lambda>x. x \<noteq> CHR '')'') (drop 1 (dropWhile (\<lambda>x. x \<noteq> CHR ''('') w))"

definition parse_create :: "string \<Rightarrow> bool \<Rightarrow> string list \<Rightarrow> stmt" where
  "parse_create kind ine args =
     (if kind = ''EXTENSION'' then
        (case args of [n] \<Rightarrow> CreateExtension ine n | _ \<Rightarrow> Unsupported)
      else if kind = ''TABLE'' then
        (case args of [] \<Rightarrow> Unsupported | n # _ \<Rightarrow> CreateTable ine (before_paren n))
      else if kind = ''INDEX'' then
        (case args of
           [n, on, target] \<Rightarrow>
             if on = ''ON'' then CreateIndex ine n (before_paren target) (in_parens target)
             else Unsupported
         | _ \<Rightarrow> Unsupported)
      else Unsupported)"

definition parse_stmt :: "string \<Rightarrow> stmt" where
  "parse_stmt s =
     (case tokens s of
        [] \<Rightarrow> Unsupported
      | [w] \<Rightarrow>
          if w = ''BEGIN'' then Begin
          else if w = ''COMMIT'' then Commit
          else if w = ''ROLLBACK'' then Rollback
          else Unsupported
      | k1 # k2 # rest \<Rightarrow>
          if k1 = ''CREATE'' then
            (if take 3 rest = [''IF'', ''NOT'', ''EXISTS'']
             then parse_create k2 True (drop 3 rest)
             else parse_create k2 False rest)
          else if k1 = ''DROP'' \<and> k2 = ''TABLE'' then
            (if take 2 rest = [''IF'', ''EXISTS'']
             then (case drop 2 rest of [n] \<Rightarrow> DropTable True n | _ \<Rightarrow> Unsupported)
             else (case rest of [n] \<Rightarrow> DropTable False n | _ \<Rightarrow> Unsupported))
          else Unsupported)"

text \<open>Creating what is missing; an object already there is left as it is.\<close>

definition ensure_extension :: "string \<Rightarrow> catalog \<Rightarrow> catalog" where
  "ensure_extension n cat =
     (if n \<in> set (extensions cat) then cat else cat\<lparr>extensions := extensions cat @ [n]\<rparr>)"

definition ensure_table :: "string \<Rightarrow> string \<Rightarrow> catalog \<Rightarrow> catalog" where
  "ensure_table n text_of cat =
     (if n \<in> set (table_names cat) then cat else cat\<lparr>tables := tables cat @ [(n, text_of)]\<rparr>)"

definition ensure_index :: "string \<Rightarrow> string \<Rightarrow> string \<Rightarrow> catalog \<Rightarrow> catalog" where
  "ensure_index n t col cat =
     (if n \<in> set (index_names cat) then cat else cat\<lparr>indexes := indexes cat @ [(n, t, col)]\<rparr>)"

definition drop_table :: "string \<Rightarrow> catalog \<Rightarrow> catalog" where
  "drop_table n cat =
     cat\<lparr>tables := filter (\<lambda>(m, d). m \<noteq> n) (tables cat),
         indexes := filter (\<lambda>(i, t, col). t \<noteq> n) (indexes cat)\<rparr>"

datatype 'f pg_error =
    Fault 'f
  | DuplicateObject string
  | UndefinedTable string
  | SyntaxError
  | InFailedTransaction

text \<open>
  A data definition statement on a catalog; the second argument is the statement's
  text, kept as the table's definition.
\<close>

fun apply_ddl :: "stmt \<Rightarrow> string \<Rightarrow> catalog \<Rightarrow> 'f pg_error + catalog" where
  "apply_ddl (CreateExtension ine n) s cat =
     (if n \<in> set (extensions cat) \<and> \<not> ine then Inl (DuplicateObject n)
      else Inr (ensure_extension n cat))"
| "apply_ddl (CreateTable ine n) s cat =
     (if n \<in> set (table_names cat) \<and> \<not> ine then Inl (DuplicateObject n)
      else Inr (ensure_table n s cat))"
| "apply_ddl (CreateIndex ine n t col) s cat =
     (if t \<in> set (table_names cat) then
        (if n \<in> set (index_names cat) \<and> \<not> ine then Inl (DuplicateObject n)
         else Inr (ensure_index n t col cat))
      else Inl (UndefinedTable t))"
| "apply_ddl (DropTable ie n) s cat =
     (if n \<in> set (table_names cat) then Inr (drop_table n cat)
      else if ie then Inr cat
      else Inl (UndefinedTable n))"
| "apply_ddl Begin s cat = Inl SyntaxError"
| "apply_ddl Commit s cat = Inl SyntaxError"
| "apply_ddl Rollback s cat = Inl SyntaxError"
| "apply_ddl Unsupported s cat = Inl SyntaxError"

text \<open>
  A connection: \<open>committed\<close> is the catalog every session sees and that outlasts the
  connection; \<open>txn\<close> is the open transaction's own view, if one is open, and \<open>aborted\<close>
  says that a statement failed in it. \<open>faults\<close> lets any statement fail for a reason
  of the environment (a lost connection, a full disk, a missing privilege): the
  \<open>n\<close>-th statement sent on the connection fails with \<open>f\<close> when \<open>faults n = Some f\<close>,
  and then has no effect.
\<close>

record 'f pg_conn =
  committed :: catalog
  txn :: "catalog option"
  aborted :: bool
  sent_count :: nat
  faults :: "nat \<Rightarrow> 'f option"

definition pg_session :: "catalog \<Rightarrow> (nat \<Rightarrow> 'f option) \<Rightarrow> 'f pg_conn" where
  "pg_session cat fl =
     \<lparr>committed = cat, txn = None, aborted = False, sent_count = 0, faults = fl\<rparr>"

definition no_faults :: "nat \<Rightarrow> 'f option" where
  "no_faults n = None"

definition failed_in :: "'f pg_conn \<Rightarrow> 'f pg_conn" where
  "failed_in c = (case txn c of None \<Rightarrow> c | Some w \<Rightarrow> c\<lparr>aborted := True\<rparr>)"

definition pg_run :: "stmt \<Rightarrow> string \<Rightarrow> 'f pg_conn \<Rightarrow> 'f pg_error option \<times> 'f pg_conn" where
  "pg_run st s c =
     (case st of
        Begin \<Rightarrow>
          (None, case txn c of None \<Rightarrow> c\<lparr>txn := Some (committed c)\<rparr> | Some w \<Rightarrow> c)
      | Commit \<Rightarrow>
          (None,
           case txn c of
             None \<Rightarrow> c
           | Some w \<Rightarrow>
               if aborted c then c\<lparr>txn := None, aborted := False\<rparr>
               else c\<lparr>committed := w, txn := None\<rparr>)
      | Rollback \<Rightarrow> (None, c\<lparr>txn := None, aborted := False\<rparr>)
      | Unsupported \<Rightarrow> (Some SyntaxError, failed_in c)
      | _ \<Rightarrow>
          (case txn c of
             None \<Rightarrow>
               (case apply_ddl st s (committed c) of
                  Inl e \<Rightarrow> (Some e, c)
                | Inr cat \<Rightarrow> (None, c\<lparr>committed := cat\<rparr>))
           | Some w \<Rightarrow>
               if aborted c then (Some InFailedTransaction, c)
               else
                 (case apply_ddl st s w of
                    Inl e \<Rightarrow> (Some e, c\<lparr>aborted := True\<rparr>)
                  | Inr cat \<Rightarrow> (None, c\<lparr>txn := Some cat\<rparr>))))"

definition pg_exec :: "string \<Rightarrow> 'f pg_conn \<Rightarrow> 'f pg_error option \<times> 'f pg_conn" where
  "pg_exec s c =
     (let c' = c\<lparr>sent_count := sent_count c + 1\<rparr> in
      case faults c (sent_count c) of
        Some f \<Rightarrow> (Some (Fault f), failed_in c')
      | None \<Rightarrow> pg_run (parse_stmt s) s c')"

text \<open>
  One run of the bootstrap on a fresh connection to a database whose catalog is
  \<open>cat\<close>: how the run ends, and the catalog it leaves committed.
\<close>

definition bootstrap_db ::
  "catalog \<Rightarrow> (nat \<Rightarrow> 'f option) \<Rightarrow> 'f pg_error option \<times> catalog" where
  "bootstrap_db cat fl =
     (let r = init pg_exec (Inr (pg_session cat fl))
      in (outcome r, case conn r of None \<Rightarrow> cat | Some c \<Rightarrow> committed c))"

text \<open>The catalog after every object of the bootstrap has been created where missing.\<close>

definition provision :: "catalog \<Rightarrow> catalog" where
  "provision cat =
     ensure_index ''idx_verification_identifier'' ''verification_tokens'' ''identifier''
      (ensure_index ''idx_chat_user_id'' ''chat_sessions'' ''user_id''
        (ensure_index ''idx_sessions_user_id'' ''sessions'' ''user_id''
          (ensure_table ''chat_sessions'' chat_sessions_sql
            (ensure_table ''verification_tokens'' verification_tokens_sql
              (ensure_table ''sessions'' sessions_sql
                (ensure_table ''users'' users_sql
                  (ensure_extension ''pgcrypto'' cat)))))))"

text \<open>Faults given as a table from statement positions to errors.\<close>

definition faults_at :: "(nat \<times> 'f) list \<Rightarrow> nat \<Rightarrow> 'f option" where
  "faults_at fs = map_of fs"

text \<open>
  The tables of \<open>cat\<close>, each with its definition, are still in what the connection
  has committed and in what its open transaction sees.
\<close>

definition keeps_tables :: "catalog \<Rightarrow> 'f pg_conn \<Rightarrow> bool" where
  "keeps_tables cat c =
     (set (tables cat) \<subseteq> set (tables (committed c))
      \<and> (case txn c of None \<Rightarrow> True | Some w \<Rightarrow> set (tables cat) \<subseteq> set (tables w)))"

text \<open>The statements that neither open nor close a transaction nor drop a table.\<close>

definition plain_create :: "stmt \<Rightarrow> bool" where
  "plain_create st =
     (case st of
        CreateExtension ine n \<Rightarrow> True
      | CreateTable ine n \<Rightarrow> True
      | CreateIndex ine n t col \<Rightarrow> True
      | _ \<Rightarrow> False)"


section \<open>Properties\<close>

subsection \<open>What the loop of \<^verbatim>\<open>sql\<close> computes\<close>

lemma sql_loop_eq:
  "i \<le> length strings \<Longrightarrow> length params = min i (length vals) \<Longrightarrow>
   sql_loop strings vals i txt params =
     (txt @ concat (map (piece strings (length vals)) [i..<length strings]),
      params @ drop i (take (length strings) vals))"
proof (induction strings vals i "txt" params rule: sql_loop.induct)
  case (1 strings vals i t params)
  show ?case
  proof (cases "i < length strings")
    case False
    with "1.prems" show ?thesis by (simp add: sql_loop.simps)
  next
    case True
    note lt = True
    show ?thesis
    proof (cases "i < length vals")
      case True
      have d: "drop i (take (length strings) vals) = vals ! i # drop (Suc i) (take (length strings) vals)"
        using Cons_nth_drop_Suc [of i "take (length strings) vals"] lt True by simp
      have len: "length params = i" using "1.prems" True by simp
      have "sql_loop strings vals i t params =
            sql_loop strings vals (i + 1) ((t @ strings ! i) @ ''$'' @ dec (length (params @ [vals ! i]))) (params @ [vals ! i])"
        using lt True by (subst sql_loop.simps) (simp add: Let_def)
      also have "\<dots> = (((t @ strings ! i) @ ''$'' @ dec (length (params @ [vals ! i]))) @ concat (map (piece strings (length vals)) [i + 1..<length strings]),
          (params @ [vals ! i]) @ drop (i + 1) (take (length strings) vals))"
        using lt True len by (intro "1.IH"(1)) (auto simp: min_def)
      finally show ?thesis
        using lt True len d by (simp add: upt_conv_Cons piece_def [of strings "length vals" i])
    next
      case False
      have d: "drop i (take (length strings) vals) = []" using False by simp
      have len: "length params = length vals" using "1.prems" False by simp
      have "sql_loop strings vals i t params = sql_loop strings vals (i + 1) (t @ strings ! i) params"
        using lt False by (subst sql_loop.simps) (simp add: Let_def)
      also have "\<dots> = ((t @ strings ! i) @ concat (map (piece strings (length vals)) [i + 1..<length strings]),
          params @ drop (i + 1) (take (length strings) vals))"
        using lt False len by (intro "1.IH"(2)) (auto simp: min_def)
      finally show ?thesis
        using lt False d by (simp add: upt_conv_Cons piece_def [of strings "length vals" i])
    qed
  qed
qed

lemma sql_eq:
  "sql strings vals =
     \<lparr>qtext = concat (map (piece strings (length vals)) [0..<length strings]),
      qvalues = take (length strings) vals\<rparr>"
  by (simp add: sql_def sql_loop_eq)


lemma digit_val_digit_char: "d < 10 \<Longrightarrow> digit_val (digit_char d) = d"
proof -
  assume "d < 10"
  then consider "d = 0" | "d = 1" | "d = 2" | "d = 3" | "d = 4" | "d = 5" | "d = 6" | "d = 7" | "d = 8" | "d = 9"
    by atomize_elim arith
  then show ?thesis
    by cases (simp_all add: digit_val_def digit_char_def)
qed

lemma undec_dec: "undec (dec n) = n"
proof (induction n rule: dec.induct)
  case (1 n)
  show ?case
  proof (cases "n < 10")
    case True
    then show ?thesis
      by (subst dec.simps) (simp add: undec_def digit_val_digit_char)
  next
    case False
    with "1.IH" have "undec (dec (n div 10)) = n div 10" by simp
    with False show ?thesis
      by (subst dec.simps) (simp add: undec_def digit_val_digit_char)
  qed
qed

lemma dec_inj: "dec m = dec n \<Longrightarrow> m = n"
  by (metis undec_dec)

lemma pieces_split:
  "concat (map (piece strings n) [0..<length strings]) =
   concat (map (\<lambda>j. strings ! j @ ''$'' @ dec (j + 1)) [0..<min (length strings) n])
     @ concat (drop n strings)"
proof -
  let ?k = "min (length strings) n"
  have "[0..<length strings] = [0..<?k] @ [?k..<length strings]"
    by (metis le_add_diff_inverse min.cobounded1 upt_add_eq_append zero_le)
  then have "concat (map (piece strings n) [0..<length strings]) =
      concat (map (piece strings n) [0..<?k]) @ concat (map (piece strings n) [?k..<length strings])"
    by (metis concat_append map_append)
  moreover have "map (piece strings n) [0..<?k] = map (\<lambda>j. strings ! j @ ''$'' @ dec (j + 1)) [0..<?k]"
    by (rule map_cong) (auto simp: piece_def)
  moreover have "map (piece strings n) [?k..<length strings] = map ((!) strings) [?k..<length strings]"
    by (rule map_cong) (auto simp: piece_def)
  moreover have "map ((!) strings) [?k..<length strings] = drop n strings"
  proof (cases "n \<le> length strings")
    case True
    then have "?k = n" by simp
    with True show ?thesis by (intro nth_equalityI) simp_all
  next
    case False
    then show ?thesis by simp
  qed
  ultimately show ?thesis by simp
qed

lemma sql_text:
  "qtext (sql strings vals) =
     concat (map (\<lambda>j. strings ! j @ ''$'' @ dec (j + 1)) [0..<min (length strings) (length vals)])
       @ concat (drop (length vals) strings)"
  by (simp add: sql_eq pieces_split)

lemma sql_values: "qvalues (sql strings vals) = take (length strings) vals"
  by (simp add: sql_eq)

subsection \<open>The parameterized query builder\<close>

text \<open>
  C1. For a well-formed input, one fragment more than values, the text is the
  fragments in order with \<open>$1\<close>, ..., \<open>$n\<close> between them, the parameter list is the
  value list, and the text is the same for any other list of as many values, of
  whatever type: no value has a part in it.
\<close>

theorem sql_well_formed:
  assumes "length strings = length vals + 1"
  shows "qtext (sql strings vals) =
           concat (map (\<lambda>j. strings ! j @ ''$'' @ dec (j + 1)) [0..<length vals])
             @ strings ! length vals
         \<and> qvalues (sql strings vals) = vals
         \<and> (length (vals' :: 'w list) = length vals \<longrightarrow>
              qtext (sql strings vals') = qtext (sql strings vals))"
proof -
  have "min (length strings) (length vals) = length vals"
    using assms by simp
  moreover have "drop (length vals) strings = [strings ! length vals]"
    using assms Cons_nth_drop_Suc [of "length vals" strings] by simp
  ultimately have shape: "min (length strings) (length vals) = length vals"
      "concat (drop (length vals) strings) = strings ! length vals"
    by simp_all
  have "qtext (sql strings vals) =
      concat (map (\<lambda>j. strings ! j @ ''$'' @ dec (j + 1)) [0..<length vals])
        @ strings ! length vals"
    using sql_text [of strings vals] shape by simp
  moreover have "qtext (sql strings vals') = qtext (sql strings vals)"
    if "length vals' = length vals"
    using that sql_text [of strings vals'] sql_text [of strings vals] by simp
  moreover have "qvalues (sql strings vals) = vals"
    using assms by (simp add: sql_values)
  ultimately show ?thesis
    by simp
qed

theorem sql_well_formed_witness:
  "length [''SELECT * FROM t WHERE a = '', '' AND b = '', ''''] = length [Num 5, Str ''x''] + 1
   \<and> qtext (sql [''SELECT * FROM t WHERE a = '', '' AND b = '', ''''] [Num 5, Str ''x''])
       = ''SELECT * FROM t WHERE a = $1 AND b = $2''
   \<and> qvalues (sql [''SELECT * FROM t WHERE a = '', '' AND b = '', ''''] [Num 5, Str ''x''])
       = [Num 5, Str ''x'']"
  using sql_well_formed [of "[''SELECT * FROM t WHERE a = '', '' AND b = '', '''']"
      "[Num 5, Str ''x'']" "[]::nat list"]
  by (simp add: dec.simps digit_char_def)

text \<open>
  C8. For every input, the \<open>j\<close>-th interpolation (counting from 0) is rendered as
  \<open>$\<close> followed by \<open>j + 1\<close> in decimal, whatever the values are, so two occurrences
  of one value get two numbers and the placeholders are pairwise distinct; the
  fragments beyond the values follow as they are; the helper returns for every
  input.
\<close>

theorem sql_numbering:
  "qtext (sql strings vals) =
     concat (map (\<lambda>j. strings ! j @ ''$'' @ dec (j + 1)) [0..<min (length strings) (length vals)])
       @ concat (drop (length vals) strings)
   \<and> distinct (map (\<lambda>j. ''$'' @ dec (j + 1)) [0..<min (length strings) (length vals)])"
proof -
  have "inj_on (\<lambda>j. ''$'' @ dec (j + 1)) (set [0..<min (length strings) (length vals)])"
    by (rule inj_onI) (auto dest: dec_inj)
  then show ?thesis
    by (simp add: sql_text distinct_map)
qed

theorem sql_numbering_witness:
  "qtext (sql [''a = '', '' OR b = '', '' ORDER BY '', ''c''] [Num 7, Num 7])
     = ''a = $1 OR b = $2 ORDER BY c''"
  using sql_numbering [of "[''a = '', '' OR b = '', '' ORDER BY '', ''c'']" "[Num 7, Num 7]"]
  by (simp add: dec.simps digit_char_def)

text \<open>
  C9. With at least as many values as fragments, every fragment is followed by a
  placeholder, the parameter list is the first \<open>length strings\<close> values, and the
  values beyond them have no effect on the result.
\<close>

theorem sql_excess_values:
  assumes "length strings \<le> length vals"
  shows "qvalues (sql strings vals) = take (length strings) vals
         \<and> qtext (sql strings vals) =
             concat (map (\<lambda>j. strings ! j @ ''$'' @ dec (j + 1)) [0..<length strings])
         \<and> sql strings vals = sql strings (take (length strings) vals)"
proof -
  have "min (length strings) (length vals) = length strings"
    using assms by simp
  moreover have "drop (length vals) strings = []"
    using assms by simp
  ultimately have "qtext (sql strings vals) =
      concat (map (\<lambda>j. strings ! j @ ''$'' @ dec (j + 1)) [0..<length strings])"
    using sql_text [of strings vals] by simp
  moreover have "sql strings vals = sql strings (take (length strings) vals)"
  proof (rule QueryConfig.equality)
    show "qtext (sql strings vals) = qtext (sql strings (take (length strings) vals))"
      using assms by (simp add: sql_text)
    show "qvalues (sql strings vals) = qvalues (sql strings (take (length strings) vals))"
      by (simp add: sql_values)
  qed simp
  ultimately show ?thesis
    by (simp add: sql_values)
qed

theorem sql_excess_values_witness:
  "length [''a = '', '' AND b = ''] \<le> length [Num 1, Num 2, Num 3, Num 4]
   \<and> qtext (sql [''a = '', '' AND b = ''] [Num 1, Num 2, Num 3, Num 4]) = ''a = $1 AND b = $2''
   \<and> qvalues (sql [''a = '', '' AND b = ''] [Num 1, Num 2, Num 3, Num 4]) = [Num 1, Num 2]"
  using sql_excess_values [of "[''a = '', '' AND b = '']" "[Num 1, Num 2, Num 3, Num 4]"]
  by (simp add: dec.simps digit_char_def sql_text sql_values)

subsection \<open>The query function\<close>

text \<open>
  C10. Called with a query object, \<^verbatim>\<open>query\<close> passes the object alone to
  \<^verbatim>\<open>pool.query\<close>: the call is the same whatever the separate parameter list is.
\<close>

theorem query_config_ignores_params:
  "query pool_query (Config cfg) params = pool_query (Config cfg) None
   \<and> query pool_query (Config cfg) params = query pool_query (Config cfg) params'"
  by (simp add: query_def)

subsection \<open>Module load\<close>

text \<open>
  C3, as the claim states it, fails for a connection string that is present and
  empty: the load throws.
\<close>

theorem load_module_empty_counterexample:
  "load_module (Some '''') = Inl MissingDatabaseUrl"
  by (simp add: load_module_def)

text \<open>
  C3, amended. When the connection string is absent or empty the load throws and no
  pool is constructed; for every non-empty connection string the pool is constructed
  from it, with at most 2 clients and an idle timeout of 30000 ms.
\<close>

theorem load_module_pool:
  "load_module None = Inl MissingDatabaseUrl
   \<and> load_module (Some []) = Inl MissingDatabaseUrl
   \<and> (s \<noteq> [] \<longrightarrow>
        load_module (Some s)
          = Inr \<lparr>connectionString = s, max_clients = 2, idleTimeoutMillis = 30000\<rparr>)"
  by (simp add: load_module_def)

theorem load_module_pool_witness:
  "''postgres://db.example/app'' \<noteq> []
   \<and> load_module (Some ''postgres://db.example/app'')
       = Inr \<lparr>connectionString = ''postgres://db.example/app'', max_clients = 2,
              idleTimeoutMillis = 30000\<rparr>"
  using load_module_pool [of "''postgres://db.example/app''"]
  by simp

subsection \<open>Runs of a list of queries\<close>

lemma run_queries_sent:
  "run_queries exec ss c = (r, c', sent) \<Longrightarrow>
     sent = take (length sent) ss \<and> (r = None \<longrightarrow> sent = ss) \<and> (r \<noteq> None \<longrightarrow> sent \<noteq> [])"
proof (induction ss arbitrary: c r c' sent)
  case Nil
  then show ?case by simp
next
  case (Cons s ss)
  obtain r1 c1 where step: "exec s c = (r1, c1)"
    by (cases "exec s c")
  show ?case
  proof (cases r1)
    case (Some e)
    with Cons.prems step show ?thesis by auto
  next
    case None
    obtain r2 c2 sent2 where rest: "run_queries exec ss c1 = (r2, c2, sent2)"
      by (cases "run_queries exec ss c1")
    from Cons.IH [OF rest] Cons.prems step None rest show ?thesis
      by auto
  qed
qed

lemma run_queries_resolved:
  "run_queries exec ss c = (None, c1, sent) \<Longrightarrow>
     c1 = foldl (\<lambda>c s. snd (exec s c)) c ss
     \<and> (\<forall>k < length ss.
          fst (exec (ss ! k) (foldl (\<lambda>c s. snd (exec s c)) c (take k ss))) = None)"
proof (induction ss arbitrary: c c1 sent)
  case Nil
  then show ?case by simp
next
  case (Cons s ss)
  obtain r1 c' where step: "exec s c = (r1, c')"
    by (cases "exec s c")
  obtain r2 c2 sent2 where rest: "run_queries exec ss c' = (r2, c2, sent2)"
    by (cases "run_queries exec ss c'")
  from Cons.prems step rest have r1: "r1 = None" and r2: "r2 = None" and c1: "c1 = c2"
    by (auto split: option.splits)
  from Cons.IH [OF rest [unfolded r2]]
  have ih: "c2 = foldl (\<lambda>c s. snd (exec s c)) c' ss"
    "\<forall>k < length ss. fst (exec (ss ! k) (foldl (\<lambda>c s. snd (exec s c)) c' (take k ss))) = None"
    by simp_all
  have "fst (exec ((s # ss) ! k) (foldl (\<lambda>c s. snd (exec s c)) c (take k (s # ss)))) = None"
    if "k < length (s # ss)" for k
  proof (cases k)
    case 0
    then show ?thesis using step r1 by simp
  next
    case (Suc j)
    with that ih(2) step show ?thesis by simp
  qed
  then show ?case
    using ih(1) c1 step by simp
qed

lemma run_queries_invariant:
  assumes "\<And>s c. s \<in> set ss \<Longrightarrow> P c \<Longrightarrow> P (snd (exec s c))"
    and "P c"
  shows "P (fst (snd (run_queries exec ss c)))"
  using assms
proof (induction ss arbitrary: c)
  case Nil
  then show ?case by simp
next
  case (Cons s ss)
  have "P (snd (exec s c))"
    using Cons.prems by simp
  moreover have "P (fst (snd (run_queries exec ss (snd (exec s c)))))"
    using Cons.prems \<open>P (snd (exec s c))\<close> by (intro Cons.IH) simp_all
  ultimately show ?case
    by (auto split: prod.splits option.splits)
qed

lemma queries_map_Query [simp]: "queries (map Query ss @ evs) = ss @ queries evs"
  by (induction ss) simp_all

lemma count_list_map_Query [simp]:
  "count_list (map Query ss) Release = 0" "count_list (map Query ss) Connect = 0"
  by (induction ss) simp_all

subsection \<open>Runs of \<^verbatim>\<open>init\<close>\<close>

lemma init_success:
  "run_queries exec try_body client = (None, c1, sent) \<Longrightarrow>
     init exec (Inr client) =
       \<lparr>outcome = None,
        events = Connect # map Query try_body @ [ConsoleInfo init_info, Release],
        conn = Some c1\<rparr>"
  using run_queries_sent [of exec try_body client None c1 sent]
  by (simp add: init_def)

lemma outcome_None_iff:
  "outcome (init exec (Inr client)) = None \<longleftrightarrow> fst (run_queries exec try_body client) = None"
  by (auto simp: init_def split: prod.splits option.splits)

subsection \<open>The database model: reading the statements\<close>

lemma parse_begin: "parse_stmt ''BEGIN'' = Begin"
  by code_simp

lemma parse_commit: "parse_stmt ''COMMIT'' = Commit"
  by code_simp

lemma parse_rollback: "parse_stmt ''ROLLBACK'' = Rollback"
  by code_simp

lemma parse_create_extension: "parse_stmt create_extension_sql = CreateExtension True ''pgcrypto''"
  by code_simp

lemma parse_users: "parse_stmt users_sql = CreateTable True ''users''"
  by code_simp

lemma parse_sessions: "parse_stmt sessions_sql = CreateTable True ''sessions''"
  by code_simp

lemma parse_verification_tokens:
  "parse_stmt verification_tokens_sql = CreateTable True ''verification_tokens''"
  by code_simp

lemma parse_chat_sessions: "parse_stmt chat_sessions_sql = CreateTable True ''chat_sessions''"
  by code_simp

lemma parse_idx_sessions:
  "parse_stmt idx_sessions_user_id_sql
     = CreateIndex True ''idx_sessions_user_id'' ''sessions'' ''user_id''"
  by code_simp

lemma parse_idx_chat:
  "parse_stmt idx_chat_user_id_sql
     = CreateIndex True ''idx_chat_user_id'' ''chat_sessions'' ''user_id''"
  by code_simp

lemma parse_idx_verification:
  "parse_stmt idx_verification_identifier_sql
     = CreateIndex True ''idx_verification_identifier'' ''verification_tokens'' ''identifier''"
  by code_simp

lemmas parse_simps =
  parse_begin parse_commit parse_rollback parse_create_extension parse_users parse_sessions
  parse_verification_tokens parse_chat_sessions parse_idx_sessions parse_idx_chat
  parse_idx_verification

subsection \<open>Catalog operations\<close>

lemma table_names_ensure_extension [simp]:
  "table_names (ensure_extension n cat) = table_names cat"
  by (simp add: ensure_extension_def table_names_def)

lemma table_names_ensure_index [simp]:
  "table_names (ensure_index n t col cat) = table_names cat"
  by (simp add: ensure_index_def table_names_def)

lemma table_names_ensure_table:
  "set (table_names (ensure_table n s cat)) = insert n (set (table_names cat))"
  by (auto simp: ensure_table_def table_names_def)

lemma index_names_ensure_table [simp]:
  "index_names (ensure_table n s cat) = index_names cat"
  by (simp add: ensure_table_def index_names_def)

lemma index_names_ensure_index:
  "set (index_names (ensure_index n t col cat)) = insert n (set (index_names cat))"
  by (auto simp: ensure_index_def index_names_def)

lemma extensions_ensure_extension:
  "set (extensions (ensure_extension n cat)) = insert n (set (extensions cat))"
  by (auto simp: ensure_extension_def)

lemma extensions_ensure_table [simp]: "extensions (ensure_table n s cat) = extensions cat"
  by (simp add: ensure_table_def)

lemma extensions_ensure_index [simp]: "extensions (ensure_index n t col cat) = extensions cat"
  by (simp add: ensure_index_def)

lemma ensure_extension_present: "n \<in> set (extensions cat) \<Longrightarrow> ensure_extension n cat = cat"
  by (simp add: ensure_extension_def)

lemma ensure_table_present: "n \<in> set (table_names cat) \<Longrightarrow> ensure_table n s cat = cat"
  by (simp add: ensure_table_def)

lemma ensure_index_present: "n \<in> set (index_names cat) \<Longrightarrow> ensure_index n t col cat = cat"
  by (simp add: ensure_index_def)

lemma tables_ensure_table: "set (tables cat) \<subseteq> set (tables (ensure_table n s cat))"
  by (auto simp: ensure_table_def)

lemma tables_ensure_extension [simp]: "tables (ensure_extension n cat) = tables cat"
  by (simp add: ensure_extension_def)

lemma tables_ensure_index [simp]: "tables (ensure_index n t col cat) = tables cat"
  by (simp add: ensure_index_def)

subsection \<open>A run without faults\<close>

lemma pg_exec_no_fault:
  "faults c = no_faults \<Longrightarrow>
     pg_exec s c = pg_run (parse_stmt s) s (c\<lparr>sent_count := sent_count c + 1\<rparr>)"
  by (simp add: pg_exec_def no_faults_def Let_def)

lemma run_try_body_no_faults:
  "run_queries pg_exec try_body (pg_session cat no_faults) =
     (None,
      \<lparr>committed = provision cat, txn = None, aborted = False, sent_count = 10,
       faults = no_faults\<rparr>,
      try_body)"
  by (simp add: try_body_def pg_session_def pg_exec_no_fault parse_simps pg_run_def
      provision_def table_names_ensure_table)

lemma bootstrap_db_no_faults: "bootstrap_db cat no_faults = (None, provision cat)"
  by (simp add: bootstrap_db_def init_success [OF run_try_body_no_faults])

lemma provision_idem: "provision (provision cat) = provision cat"
  by (simp add: provision_def ensure_extension_present ensure_table_present
      ensure_index_present table_names_ensure_table index_names_ensure_index
      extensions_ensure_extension)

lemma provision_empty:
  "table_names (provision empty_catalog)
     = [''users'', ''sessions'', ''verification_tokens'', ''chat_sessions'']"
  "index_names (provision empty_catalog)
     = [''idx_sessions_user_id'', ''idx_chat_user_id'', ''idx_verification_identifier'']"
  "extensions (provision empty_catalog) = [''pgcrypto'']"
  by (simp_all add: provision_def empty_catalog_def ensure_extension_def ensure_table_def
      ensure_index_def table_names_def index_names_def)

subsection \<open>Runs with faults\<close>

lemma committed_failed_in [simp]: "committed (failed_in c) = committed c"
  by (simp add: failed_in_def split: option.splits)

lemma pg_exec_keeps_tables:
  "plain_create (parse_stmt s) \<or> parse_stmt s \<in> {Begin, Commit, Rollback} \<Longrightarrow>
     keeps_tables cat c \<Longrightarrow> keeps_tables cat (snd (pg_exec s c))"
  using tables_ensure_table
  by (auto simp: pg_exec_def pg_run_def Let_def keeps_tables_def plain_create_def failed_in_def
      split: option.splits stmt.splits sum.splits if_splits) blast+

lemma conn_init:
  "conn (init exec (Inr client)) =
     Some (case run_queries exec try_body client of
             (None, c1, sent) \<Rightarrow> c1
           | (Some err, c1, sent) \<Rightarrow> snd (exec ''ROLLBACK'' c1))"
  by (auto simp: init_def split: prod.splits option.splits)

lemma bootstrap_db_keeps_tables:
  "set (tables cat) \<subseteq> set (tables (snd (bootstrap_db cat fl)))"
proof -
  let ?s0 = "pg_session cat fl"
  obtain r c1 sent where run: "run_queries pg_exec try_body ?s0 = (r, c1, sent)"
    by (cases "run_queries pg_exec try_body ?s0")
  have "keeps_tables cat (fst (snd (run_queries pg_exec try_body ?s0)))"
  proof (rule run_queries_invariant [where P = "keeps_tables cat"])
    fix s and c :: "'a pg_conn"
    assume "s \<in> set try_body" and "keeps_tables cat c"
    moreover from \<open>s \<in> set try_body\<close>
    have "plain_create (parse_stmt s) \<or> parse_stmt s \<in> {Begin, Commit, Rollback}"
      by (auto simp: try_body_def parse_simps plain_create_def)
    ultimately show "keeps_tables cat (snd (pg_exec s c))"
      by (simp add: pg_exec_keeps_tables)
  next
    show "keeps_tables cat ?s0"
      by (simp add: keeps_tables_def pg_session_def)
  qed
  then have c1: "keeps_tables cat c1"
    using run by simp
  then have "keeps_tables cat (snd (pg_exec ''ROLLBACK'' c1))"
    by (intro pg_exec_keeps_tables) (simp_all add: parse_rollback)
  with c1 show ?thesis
    using run by (cases r) (simp_all add: bootstrap_db_def Let_def conn_init keeps_tables_def)
qed

subsection \<open>The schema bootstrap\<close>

text \<open>
  C5. When the bootstrap succeeds, it has connected once and sent, on the client it
  acquired, \<open>BEGIN\<close>, the creation of the extension \<open>pgcrypto\<close>, of the tables \<open>users\<close>,
  \<open>sessions\<close>, \<open>verification_tokens\<close> and \<open>chat_sessions\<close>, of the indexes on
  \<open>sessions(user_id)\<close>, \<open>chat_sessions(user_id)\<close> and \<open>verification_tokens(identifier)\<close>,
  each with \<open>IF NOT EXISTS\<close>, and \<open>COMMIT\<close>, in this order and nothing else; then it
  logs and releases the client. Each of the ten statements was executed on the state
  in which the statements before it left that client, each resolved, and the client
  is left in the state that executing the ten in turn produces.
\<close>

theorem init_success_order:
  assumes "outcome (init exec (Inr client)) = None"
  shows "events (init exec (Inr client))
           = Connect # map Query try_body @ [ConsoleInfo init_info, Release]
         \<and> queries (events (init exec (Inr client)))
           = [''BEGIN'', ''CREATE EXTENSION IF NOT EXISTS pgcrypto'',
              users_sql, sessions_sql, verification_tokens_sql, chat_sessions_sql,
              ''CREATE INDEX IF NOT EXISTS idx_sessions_user_id ON sessions(user_id)'',
              ''CREATE INDEX IF NOT EXISTS idx_chat_user_id ON chat_sessions(user_id)'',
              ''CREATE INDEX IF NOT EXISTS idx_verification_identifier ON verification_tokens(identifier)'',
              ''COMMIT'']
         \<and> map parse_stmt (queries (events (init exec (Inr client))))
           = [Begin, CreateExtension True ''pgcrypto'',
              CreateTable True ''users'', CreateTable True ''sessions'',
              CreateTable True ''verification_tokens'', CreateTable True ''chat_sessions'',
              CreateIndex True ''idx_sessions_user_id'' ''sessions'' ''user_id'',
              CreateIndex True ''idx_chat_user_id'' ''chat_sessions'' ''user_id'',
              CreateIndex True ''idx_verification_identifier'' ''verification_tokens''
                ''identifier'',
              Commit]
         \<and> conn (init exec (Inr client))
           = Some (foldl (\<lambda>c s. snd (exec s c)) client try_body)
         \<and> (\<forall>k < length try_body.
              fst (exec (try_body ! k) (foldl (\<lambda>c s. snd (exec s c)) client (take k try_body)))
                = None)"
proof -
  from assms have "fst (run_queries exec try_body client) = None"
    by (simp add: outcome_None_iff)
  then obtain c1 sent where run: "run_queries exec try_body client = (None, c1, sent)"
    by (cases "run_queries exec try_body client") auto
  then have ev: "events (init exec (Inr client))
      = Connect # map Query try_body @ [ConsoleInfo init_info, Release]"
    by (simp add: init_success)
  then have q: "queries (events (init exec (Inr client))) = try_body"
    by simp
  have "map parse_stmt try_body
      = [Begin, CreateExtension True ''pgcrypto'',
         CreateTable True ''users'', CreateTable True ''sessions'',
         CreateTable True ''verification_tokens'', CreateTable True ''chat_sessions'',
         CreateIndex True ''idx_sessions_user_id'' ''sessions'' ''user_id'',
         CreateIndex True ''idx_chat_user_id'' ''chat_sessions'' ''user_id'',
         CreateIndex True ''idx_verification_identifier'' ''verification_tokens''
           ''identifier'',
         Commit]"
    by (simp add: try_body_def parse_simps)
  moreover have "try_body
      = [''BEGIN'', ''CREATE EXTENSION IF NOT EXISTS pgcrypto'',
         users_sql, sessions_sql, verification_tokens_sql, chat_sessions_sql,
         ''CREATE INDEX IF NOT EXISTS idx_sessions_user_id ON sessions(user_id)'',
         ''CREATE INDEX IF NOT EXISTS idx_chat_user_id ON chat_sessions(user_id)'',
         ''CREATE INDEX IF NOT EXISTS idx_verification_identifier ON verification_tokens(identifier)'',
         ''COMMIT'']"
    by (simp add: try_body_def create_extension_sql_def idx_sessions_user_id_sql_def
        idx_chat_user_id_sql_def idx_verification_identifier_sql_def)
  moreover have "conn (init exec (Inr client))
      = Some (foldl (\<lambda>c s. snd (exec s c)) client try_body)"
    using run run_queries_resolved [OF run] by (simp add: init_success)
  moreover have "\<forall>k < length try_body.
      fst (exec (try_body ! k) (foldl (\<lambda>c s. snd (exec s c)) client (take k try_body))) = None"
    using run_queries_resolved [OF run] by blast
  ultimately show ?thesis
    using ev q by (simp only: simp_thms)
qed

theorem init_success_order_witness:
  "outcome (init pg_exec (Inr (pg_session empty_catalog (no_faults :: nat \<Rightarrow> nat option)))) = None
   \<and> queries (events (init pg_exec (Inr (pg_session empty_catalog (no_faults :: nat \<Rightarrow> nat option)))))
       = try_body
   \<and> foldl (\<lambda>c s. snd (pg_exec s c)) (pg_session empty_catalog (no_faults :: nat \<Rightarrow> nat option))
         try_body
       = \<lparr>committed = provision empty_catalog, txn = None, aborted = False, sent_count = 10,
          faults = no_faults\<rparr>"
proof -
  let ?s = "pg_session empty_catalog (no_faults :: nat \<Rightarrow> nat option)"
  have ok: "outcome (init pg_exec (Inr ?s)) = None"
    by (simp add: init_success [OF run_try_body_no_faults])
  have c: "conn (init pg_exec (Inr ?s))
      = Some \<lparr>committed = provision empty_catalog, txn = None, aborted = False, sent_count = 10,
          faults = no_faults\<rparr>"
    by (simp add: init_success [OF run_try_body_no_faults])
  from init_success_order [OF ok]
  have "events (init pg_exec (Inr ?s))
        = Connect # map Query try_body @ [ConsoleInfo init_info, Release]"
    and "conn (init pg_exec (Inr ?s)) = Some (foldl (\<lambda>c s. snd (pg_exec s c)) ?s try_body)"
    by simp_all
  then show ?thesis
    using ok c by simp
qed

text \<open>
  C6. Whenever a client was acquired, the run ends with \<^verbatim>\<open>client.release()\<close> and
  calls it exactly once, however the statements and the rollback went; when
  \<^verbatim>\<open>pool.connect()\<close> itself fails there is no client and nothing else happens.
\<close>

theorem init_releases:
  "count_list (events (init exec (Inr client))) Release = 1
   \<and> last (events (init exec (Inr client))) = Release
   \<and> count_list (events (init exec (Inr client))) Connect = 1
   \<and> events (init exec (Inl e)) = [Connect]"
  by (auto simp: init_def split: prod.splits option.splits)

theorem init_releases_witness:
  "count_list (events (init pg_exec
        (Inr (pg_session empty_catalog (faults_at [] :: nat \<Rightarrow> string option))))) Release = 1
   \<and> count_list (events (init pg_exec
        (Inr (pg_session empty_catalog (faults_at [(3, ''E1'')]))))) Release = 1
   \<and> count_list (events (init pg_exec
        (Inr (pg_session empty_catalog (faults_at [(3, ''E1''), (4, ''E2'')]))))) Release = 1"
  using
    init_releases [of pg_exec "pg_session empty_catalog (faults_at [] :: nat \<Rightarrow> string option)",
      THEN conjunct1]
    init_releases [of pg_exec "pg_session empty_catalog (faults_at [(3, ''E1'')])",
      THEN conjunct1]
    init_releases [of pg_exec "pg_session empty_catalog (faults_at [(3, ''E1''), (4, ''E2'')])",
      THEN conjunct1]
  by simp

text \<open>
  C2. The \<^verbatim>\<open>catch\<close> block sends \<^verbatim>\<open>ROLLBACK\<close> and then logs and re-throws the error
  it caught, but it awaits the \<^verbatim>\<open>ROLLBACK\<close> first and without a guard. Two runs on a
  client that rejects the creation of the second table with \<open>E1\<close>: when the
  \<^verbatim>\<open>ROLLBACK\<close> resolves, \<open>E1\<close> is logged and the run rejects with \<open>E1\<close>, as the claim
  says; when the \<^verbatim>\<open>ROLLBACK\<close> is rejected too, with \<open>E2\<close>, the run rejects with \<open>E2\<close>
  and \<open>E1\<close> is neither logged nor thrown.
\<close>

theorem init_rollback_rejected_loses_error:
  "fst (run_queries pg_exec try_body (pg_session empty_catalog (faults_at [(3, ''E1'')])))
     = Some (Fault ''E1'')
   \<and> outcome (init pg_exec (Inr (pg_session empty_catalog (faults_at [(3, ''E1'')]))))
     = Some (Fault ''E1'')
   \<and> events (init pg_exec (Inr (pg_session empty_catalog (faults_at [(3, ''E1'')]))))
     = [Connect, Query ''BEGIN'', Query create_extension_sql, Query users_sql,
        Query sessions_sql, Query ''ROLLBACK'', ConsoleError init_error (Fault ''E1''),
        Release]
   \<and> fst (run_queries pg_exec try_body
         (pg_session empty_catalog (faults_at [(3, ''E1''), (4, ''E2'')])))
     = Some (Fault ''E1'')
   \<and> outcome (init pg_exec (Inr (pg_session empty_catalog (faults_at [(3, ''E1''), (4, ''E2'')]))))
     = Some (Fault ''E2'')
   \<and> events (init pg_exec (Inr (pg_session empty_catalog (faults_at [(3, ''E1''), (4, ''E2'')]))))
     = [Connect, Query ''BEGIN'', Query create_extension_sql, Query users_sql,
        Query sessions_sql, Query ''ROLLBACK'', Release]"
  by code_simp

subsection \<open>Running the bootstrap again\<close>

text \<open>
  C4. On an empty database the bootstrap succeeds and leaves the extension, the four
  tables and the three indexes, each once; run again on what it left, it succeeds and
  leaves the same catalog. Whatever the catalog was before a run and however the run
  goes, every table that was there is there afterwards with its definition.
\<close>

theorem bootstrap_idempotent:
  "fst (bootstrap_db empty_catalog (no_faults :: nat \<Rightarrow> 'f option)) = None
   \<and> bootstrap_db (snd (bootstrap_db empty_catalog (no_faults :: nat \<Rightarrow> 'f option)))
         (no_faults :: nat \<Rightarrow> 'f option)
       = bootstrap_db empty_catalog no_faults
   \<and> table_names (snd (bootstrap_db empty_catalog (no_faults :: nat \<Rightarrow> 'f option)))
       = [''users'', ''sessions'', ''verification_tokens'', ''chat_sessions'']
   \<and> index_names (snd (bootstrap_db empty_catalog (no_faults :: nat \<Rightarrow> 'f option)))
       = [''idx_sessions_user_id'', ''idx_chat_user_id'', ''idx_verification_identifier'']
   \<and> extensions (snd (bootstrap_db empty_catalog (no_faults :: nat \<Rightarrow> 'f option)))
       = [''pgcrypto'']
   \<and> set (tables cat) \<subseteq> set (tables (snd (bootstrap_db cat (fl :: nat \<Rightarrow> 'f option))))"
  using bootstrap_db_keeps_tables [of cat fl]
  by (simp add: bootstrap_db_no_faults provision_idem provision_empty)

theorem bootstrap_idempotent_witness:
  "(''users'', ''CREATE TABLE users (id int)'')
     \<in> set (tables (snd (bootstrap_db
          \<lparr>extensions = [], tables = [(''users'', ''CREATE TABLE users (id int)'')], indexes = []\<rparr>
          (faults_at [(5, ''E1'')]))))"
  using bootstrap_idempotent
    [of "\<lparr>extensions = [], tables = [(''users'', ''CREATE TABLE users (id int)'')], indexes = []\<rparr>"
      "faults_at [(5, ''E1'')]"]
  by auto

end
